theory Spec2Isabelle
  imports Main "HOL-Library.Word"
begin

section \<open>Data model\<close>

text \<open>
  A Go \<^verbatim>\<open>[]byte\<close>: \<open>None\<close> is the nil slice, \<open>Some bs\<close> a non-nil slice with the
  bytes \<open>bs\<close>. \<^verbatim>\<open>len\<close> of the nil slice is 0, and \<^verbatim>\<open>password != nil\<close> tells the two
  apart. A Go \<^verbatim>\<open>string\<close> is a sequence of bytes and \<^verbatim>\<open>len\<close> counts them, as
  \<open>length\<close> does on a \<open>string\<close>.
\<close>

type_synonym byte_slice = "8 word list option"

fun len :: "byte_slice \<Rightarrow> nat" where
  "len None = 0"
| "len (Some bs) = length bs"

text \<open>
  Modelled from the spec: the constructor \<open>Forbidden\<close>, the authorization denial of
  section 7, whose declaration is not in the source at hand. The other constructors are
  the source's values of Go's \<^verbatim>\<open>error\<close>: \<open>ErrInvalidName\<close> and \<open>ErrInvalidPassword\<close>
  are the two variables of package \<^verbatim>\<open>userrepository\<close>; \<open>NotFoundError\<close> is
  \<^verbatim>\<open>storage.NotFoundError\<close>; \<open>errors_New msg\<close> is \<^verbatim>\<open>errors.New(msg)\<close>;
  \<open>Errorf fmt err\<close> is \<^verbatim>\<open>errors.Errorf(fmt, err)\<close> with a \<^verbatim>\<open>%w\<close> verb, an error
  that wraps \<open>err\<close>; \<open>StorageFault msg\<close> stands for any other failure of a
  collaborator (storage, bcrypt, nanoid). An \<open>error option\<close> is a Go \<^verbatim>\<open>error\<close>
  variable, \<open>None\<close> being nil.
\<close>

datatype error =
    ErrInvalidName
  | ErrInvalidPassword
  | NotFoundError
  | Forbidden
  | errors_New string
  | Errorf string error
  | StorageFault string

text \<open>\<^verbatim>\<open>models.User\<close>, with the fields that \<^verbatim>\<open>Create\<close> fills.\<close>

record User =
  ID :: string
  Name :: string
  Password :: byte_slice
  IsAdmin :: bool

text \<open>The zero value of \<^verbatim>\<open>models.User\<close>, what a named result holds before it is assigned.\<close>

definition zero_User :: User where
  "zero_User = \<lparr>ID = [], Name = [], Password = None, IsAdmin = False\<rparr>"

text \<open>
  Modelled from the spec: \<^verbatim>\<open>user_repository.UpdatePayload\<close>, whose declaration is not
  in the source at hand. The source reads \<^verbatim>\<open>payload.ID\<close>, \<^verbatim>\<open>*payload.Name\<close> after
  \<^verbatim>\<open>payload.Name != nil\<close> (a \<^verbatim>\<open>*string\<close>) and \<^verbatim>\<open>payload.Password\<close> after
  \<^verbatim>\<open>payload.Password != nil\<close> (a \<^verbatim>\<open>[]byte\<close>); the optional \<open>pIsAdmin\<close> is the
  \<^verbatim>\<open>isAdmin\<close> field of a patch (section 4.3 of the spec), which the comment of
  \<^verbatim>\<open>UpdateByUser\<close> mentions too.
\<close>

record UpdatePayload =
  pID :: string
  pName :: "string option"
  pPassword :: byte_slice
  pIsAdmin :: "bool option"

text \<open>
  \<^verbatim>\<open>storage.IStorage\<close>, the interface behind \<^verbatim>\<open>UserRepository.Storage\<close>, over a
  storage state \<open>'s\<close>. The source only calls it; an implementation is a parameter of
  every operation below. A lookup returns Go's pair of a user and an error and leaves
  the state alone (section 6 of the spec gives the lookups a result only); a write
  returns its error and the new state.
  (\<^verbatim>\<open>ListUsers\<close> is used by \<^verbatim>\<open>List\<close> only and is left out.)
\<close>

record 's IStorage =
  GetUserByName :: "'s \<Rightarrow> string \<Rightarrow> User \<times> error option"
  GetUser :: "'s \<Rightarrow> string \<Rightarrow> User \<times> error option"
  SaveUser :: "'s \<Rightarrow> User \<Rightarrow> error option \<times> 's"
  UpdateUser :: "'s \<Rightarrow> UpdatePayload \<Rightarrow> error option \<times> 's"
  DeleteUser :: "'s \<Rightarrow> string \<Rightarrow> error option \<times> 's"

text \<open>\<^verbatim>\<open>type UserRepository struct { Storage sto.IStorage }\<close>\<close>

record 's UserRepository =
  Storage :: "'s IStorage"

text \<open>
  The calls into external libraries whose results the repository cannot compute:
  \<^verbatim>\<open>bcrypt.GenerateFromPassword\<close> (salted), \<^verbatim>\<open>bcrypt.CompareHashAndPassword\<close> and
  \<^verbatim>\<open>gonanoid.Nanoid()\<close> (random; the field is the outcome of the call).
\<close>

record Lib =
  GenerateFromPassword :: "byte_slice \<Rightarrow> int \<Rightarrow> byte_slice \<times> error option"
  CompareHashAndPassword :: "byte_slice \<Rightarrow> byte_slice \<Rightarrow> error option"
  Nanoid :: "string \<times> error option"


text \<open>A Go call either returns or panics.\<close>

datatype 'a outcome = Panic string | Return 'a

section \<open>\<^verbatim>\<open>xerrors.As\<close>\<close>

text \<open>
  \<open>is_NotFound err\<close>: some error of the chain of \<open>err\<close> (following \<^verbatim>\<open>Unwrap\<close>) is a
  \<^verbatim>\<open>storage.NotFoundError\<close>.
\<close>

fun is_NotFound :: "error \<Rightarrow> bool" where
  "is_NotFound NotFoundError = True"
| "is_NotFound (Errorf f e) = is_NotFound e"
| "is_NotFound ErrInvalidName = False"
| "is_NotFound ErrInvalidPassword = False"
| "is_NotFound Forbidden = False"
| "is_NotFound (errors_New m) = False"
| "is_NotFound (StorageFault m) = False"

text \<open>
  The second argument of \<^verbatim>\<open>errors.As\<close> at its one call site, a value of type
  \<^verbatim>\<open>*sto.NotFoundError\<close>: the nil pointer, or the address of a variable.
\<close>

datatype target = nil_pointer | address_of_NotFoundError

text \<open>
  \<^verbatim>\<open>errors.As(err, target)\<close> of golang.org/x/xerrors, an external library, after its
  documentation: "As panics if target is not a non-nil pointer to a type which
  implements error or is any interface type"; otherwise it reports whether an error of
  the chain matches the target's type.
\<close>

definition errors_As :: "error \<Rightarrow> target \<Rightarrow> bool outcome" where
  "errors_As err tgt =
     (case tgt of
        nil_pointer \<Rightarrow> Panic ''errors: target must be a non-nil pointer''
      | address_of_NotFoundError \<Rightarrow> Return (is_NotFound err))"

section \<open>The user repository\<close>

definition validateName :: "string \<Rightarrow> error option" where
  "validateName name =
     (let n = length name in
      if n = 0 \<or> n > 100 then Some ErrInvalidName else None)"

definition validatePassword :: "byte_slice \<Rightarrow> error option" where
  "validatePassword password =
     (if len password < 6 then Some ErrInvalidPassword else None)"

text \<open>
  \<^verbatim>\<open>CheckLoginCredentials\<close>. \<^verbatim>\<open>var notFoundError *sto.NotFoundError\<close> declares a
  pointer with its zero value, nil, and \<^verbatim>\<open>errors.As(err, notFoundError)\<close> passes
  that pointer itself (not \<^verbatim>\<open>&notFoundError\<close>).
\<close>

definition CheckLoginCredentials ::
  "Lib \<Rightarrow> 's UserRepository \<Rightarrow> string \<Rightarrow> byte_slice \<Rightarrow> 's \<Rightarrow> (bool \<times> error option) outcome" where
  "CheckLoginCredentials lib ur name password s =
     (case GetUserByName (Storage ur) s name of
        (user, Some err) \<Rightarrow>
          (let notFoundError = nil_pointer in
           case errors_As err notFoundError of
             Panic msg \<Rightarrow> Panic msg
           | Return True \<Rightarrow> Return (False, None)
           | Return False \<Rightarrow>
               Return (False, Some (Errorf ''Error checking the login credentials %w'' err)))
      | (user, None) \<Rightarrow>
          (let err = CompareHashAndPassword lib (Password user) password in
           Return (err = None, None)))"


definition Get :: "'s UserRepository \<Rightarrow> string \<Rightarrow> 's \<Rightarrow> User \<times> error option" where
  "Get ur uid s = GetUser (Storage ur) s uid"

definition Update :: "'s UserRepository \<Rightarrow> UpdatePayload \<Rightarrow> 's \<Rightarrow> error option \<times> 's" where
  "Update ur payload s =
     (case (case pName payload of
              Some name \<Rightarrow> validateName name
            | None \<Rightarrow> None) of
        Some err \<Rightarrow> (Some err, s)
      | None \<Rightarrow>
     (case (case pPassword payload of
              Some bs \<Rightarrow> validatePassword (pPassword payload)
            | None \<Rightarrow> None) of
        Some err \<Rightarrow> (Some err, s)
      | None \<Rightarrow> UpdateUser (Storage ur) s payload))"

definition Delete :: "'s UserRepository \<Rightarrow> string \<Rightarrow> 's \<Rightarrow> error option \<times> 's" where
  "Delete ur uid s = DeleteUser (Storage ur) s uid"

text \<open>
  Modelled from the spec: \<^verbatim>\<open>checkIfRequesterIsAdmin\<close>, which the source calls and
  which is not in the source at hand. Section 4.3: "fetch requester's Account by
  requesterID; if lookup fails with NotFound, the action is denied (Forbidden, not
  NotFound); otherwise test isAdmin"; section 7: any other storage fault is wrapped with
  context and returned.
\<close>

definition checkIfRequesterIsAdmin :: "'s IStorage \<Rightarrow> string \<Rightarrow> 's \<Rightarrow> error option" where
  "checkIfRequesterIsAdmin storage requesterID s =
     (case GetUser storage s requesterID of
        (requester, Some err) \<Rightarrow>
          (if is_NotFound err then Some Forbidden
           else Some (Errorf ''Error checking the requester %w'' err))
      | (requester, None) \<Rightarrow>
          (if IsAdmin requester then None else Some Forbidden))"

definition GetByUser :: "'s UserRepository \<Rightarrow> string \<Rightarrow> string \<Rightarrow> 's \<Rightarrow> User \<times> error option" where
  "GetByUser ur requesterID uid s =
     (case (if requesterID \<noteq> uid then checkIfRequesterIsAdmin (Storage ur) requesterID s
            else None) of
        Some err \<Rightarrow> (zero_User, Some err)
      | None \<Rightarrow> Get ur uid s)"

definition UpdateByUser :: "'s UserRepository \<Rightarrow> string \<Rightarrow> UpdatePayload \<Rightarrow> 's \<Rightarrow> error option \<times> 's" where
  "UpdateByUser ur requesterID user s =
     (case (if requesterID \<noteq> pID user then checkIfRequesterIsAdmin (Storage ur) requesterID s
            else None) of
        Some err \<Rightarrow> (Some err, s)
      | None \<Rightarrow> Update ur user s)"

definition DeleteByUser :: "'s UserRepository \<Rightarrow> string \<Rightarrow> string \<Rightarrow> 's \<Rightarrow> error option \<times> 's" where
  "DeleteByUser ur requesterID uid s =
     (case (if requesterID \<noteq> uid then checkIfRequesterIsAdmin (Storage ur) requesterID s
            else None) of
        Some err \<Rightarrow> (Some err, s)
      | None \<Rightarrow> Delete ur uid s)"

section \<open>An in-memory storage\<close>

text \<open>
  Modelled from the spec: an implementation of the Storage Capability of section 6 that
  keeps the accounts in a list, used to run the repository on concrete inputs.
  \<^verbatim>\<open>GetUser\<close> and \<^verbatim>\<open>GetUserByName\<close> answer \<open>NotFoundError\<close> for an absent account,
  \<^verbatim>\<open>UpdateUser\<close> and \<^verbatim>\<open>DeleteUser\<close> too; \<^verbatim>\<open>UpdateUser\<close> applies the fields present in
  the patch.
\<close>

definition apply_patch :: "UpdatePayload \<Rightarrow> User \<Rightarrow> User" where
  "apply_patch p u =
     u\<lparr>Name := (case pName p of Some n \<Rightarrow> n | None \<Rightarrow> Name u),
       Password := (case pPassword p of Some bs \<Rightarrow> Some bs | None \<Rightarrow> Password u),
       IsAdmin := (case pIsAdmin p of Some b \<Rightarrow> b | None \<Rightarrow> IsAdmin u)\<rparr>"

definition lookup :: "(User \<Rightarrow> bool) \<Rightarrow> User list \<Rightarrow> User \<times> error option" where
  "lookup P s =
     (case find P s of
        Some u \<Rightarrow> (u, None)
      | None \<Rightarrow> (zero_User, Some NotFoundError))"

definition memStorage :: "User list IStorage" where
  "memStorage =
     \<lparr>GetUserByName = (\<lambda>s name. lookup (\<lambda>u. Name u = name) s),
      GetUser = (\<lambda>s uid. lookup (\<lambda>u. ID u = uid) s),
      SaveUser = (\<lambda>s u. (None, s @ [u])),
      UpdateUser = (\<lambda>s p.
        case find (\<lambda>u. ID u = pID p) s of
          None \<Rightarrow> (Some NotFoundError, s)
        | Some _ \<Rightarrow> (None, map (\<lambda>u. if ID u = pID p then apply_patch p u else u) s)),
      DeleteUser = (\<lambda>s uid.
        case find (\<lambda>u. ID u = uid) s of
          None \<Rightarrow> (Some NotFoundError, s)
        | Some _ \<Rightarrow> (None, filter (\<lambda>u. ID u \<noteq> uid) s))\<rparr>"

definition memRepository :: "User list UserRepository" where
  "memRepository = \<lparr>Storage = memStorage\<rparr>"

section \<open>The session manager\<close>

text \<open>\<^verbatim>\<open>time.Duration\<close>, an \<^verbatim>\<open>int64\<close> of nanoseconds.\<close>

type_synonym Duration = "64 word"

text \<open>
  \<^verbatim>\<open>SessionProvider\<close>, the interface of a session storage, over a provider state
  \<open>'p\<close>; of its six methods the Auto-GC job calls \<^verbatim>\<open>GC\<close> only.
\<close>

record 'p SessionProvider =
  Provider_GC :: "'p \<Rightarrow> error option \<times> 'p"

record 'p SessionManager =
  provider :: "'p SessionProvider"
  autoGCShouldBeRunning :: bool

definition NewSessionManager :: "'p SessionProvider \<Rightarrow> 'p SessionManager" where
  "NewSessionManager prov = \<lparr>provider = prov, autoGCShouldBeRunning = False\<rparr>"

definition GC :: "'p SessionManager \<Rightarrow> 'p \<Rightarrow> error option \<times> 'p" where
  "GC manager p = Provider_GC (provider manager) p"

text \<open>The goroutine that \<^verbatim>\<open>EnableAutoGC\<close> starts, with the interval it sleeps.\<close>

datatype goroutine = autoGC_job Duration

text \<open>
  \<^verbatim>\<open>EnableAutoGC\<close> returns its error, the manager as it leaves it, and the
  goroutines it started.
\<close>

definition EnableAutoGC ::
  "'p SessionManager \<Rightarrow> Duration \<Rightarrow> error option \<times> 'p SessionManager \<times> goroutine list" where
  "EnableAutoGC manager x =
     (if autoGCShouldBeRunning manager
      then (Some (errors_New ''The autoGC job is already running''), manager, [])
      else (None, manager\<lparr>autoGCShouldBeRunning := True\<rparr>, [autoGC_job x]))"

definition DisableAutoGC :: "'p SessionManager \<Rightarrow> error option \<times> 'p SessionManager" where
  "DisableAutoGC manager =
     (if \<not> autoGCShouldBeRunning manager
      then (Some (errors_New ''The autoGC job was not running''), manager)
      else (None, manager\<lparr>autoGCShouldBeRunning := False\<rparr>))"

text \<open>
  The body of the goroutine,
  \<^verbatim>\<open>for manager.autoGCShouldBeRunning { manager.GC(); time.Sleep(x) }\<close>.
  The flag is written by other calls while the job runs, so the values the job reads,
  one at each test of the loop condition, are an input. The job returns whether it has
  left the loop (a list of readings that ends before a \<open>False\<close> leaves it looping), what
  it did, in order, and the provider state. The error of \<^verbatim>\<open>manager.GC()\<close> is not
  assigned.
\<close>

datatype event = GC_called | Sleep Duration

datatype job_state = Exited | Looping

fun autoGC_loop ::
  "'p SessionManager \<Rightarrow> Duration \<Rightarrow> bool list \<Rightarrow> 'p \<Rightarrow> job_state \<times> event list \<times> 'p" where
  "autoGC_loop manager x [] p = (Looping, [], p)"
| "autoGC_loop manager x (flag # flags) p =
     (if flag
      then (let (err, p') = GC manager p;
                (st, evs, p'') = autoGC_loop manager x flags p'
            in (st, GC_called # Sleep x # evs, p''))
      else (Exited, [], p))"

text \<open>A sequence of calls of the two Auto-GC methods on one manager, with the error of each.\<close>

datatype call = Call_EnableAutoGC Duration | Call_DisableAutoGC

fun do_call :: "call \<Rightarrow> 'p SessionManager \<Rightarrow> error option \<times> 'p SessionManager" where
  "do_call (Call_EnableAutoGC x) manager = (let (err, manager', js) = EnableAutoGC manager x in (err, manager'))"
| "do_call Call_DisableAutoGC manager = DisableAutoGC manager"

fun run_calls :: "call list \<Rightarrow> 'p SessionManager \<Rightarrow> error option list \<times> 'p SessionManager" where
  "run_calls [] manager = ([], manager)"
| "run_calls (c # cs) manager =
     (let (err, manager') = do_call c manager;
          (errs, manager'') = run_calls cs manager'
      in (err # errs, manager''))"

text \<open>
  Calls of \<^verbatim>\<open>EnableAutoGC\<close> that run at the same time. The source takes no lock and
  uses no atomic operation on \<^verbatim>\<open>autoGCShouldBeRunning\<close>, so the statements of one call
  may run between the statements of another. A call is at its test of the flag, at the
  assignment \<^verbatim>\<open>manager.autoGCShouldBeRunning = true\<close>, at the \<^verbatim>\<open>go\<close> statement
  (followed by \<^verbatim>\<open>return nil\<close>), or has returned. \<open>EnableAutoGC_stmt\<close> runs the next
  statement of a call on the manager and the list of goroutines started so far.
\<close>

datatype enable_pc = At_test | At_assign | At_go | Returned "error option"

fun EnableAutoGC_stmt ::
  "Duration \<Rightarrow> enable_pc \<Rightarrow> 'p SessionManager \<times> goroutine list \<Rightarrow>
   enable_pc \<times> 'p SessionManager \<times> goroutine list" where
  "EnableAutoGC_stmt x At_test (manager, jobs) =
     (if autoGCShouldBeRunning manager
      then (Returned (Some (errors_New ''The autoGC job is already running'')), manager, jobs)
      else (At_assign, manager, jobs))"
| "EnableAutoGC_stmt x At_assign (manager, jobs) =
     (At_go, manager\<lparr>autoGCShouldBeRunning := True\<rparr>, jobs)"
| "EnableAutoGC_stmt x At_go (manager, jobs) =
     (Returned None, manager, jobs @ [autoGC_job x])"
| "EnableAutoGC_stmt x (Returned err) (manager, jobs) =
     (Returned err, manager, jobs)"

text \<open>
  Two calls, \<^verbatim>\<open>EnableAutoGC(x1)\<close> and \<^verbatim>\<open>EnableAutoGC(x2)\<close>, on one manager; the
  schedule says which of the two runs its next statement.
\<close>

datatype caller = First_call | Second_call

fun concurrent_EnableAutoGC ::
  "caller list \<Rightarrow> Duration \<Rightarrow> Duration \<Rightarrow>
   enable_pc \<times> enable_pc \<times> 'p SessionManager \<times> goroutine list \<Rightarrow>
   enable_pc \<times> enable_pc \<times> 'p SessionManager \<times> goroutine list" where
  "concurrent_EnableAutoGC [] x1 x2 st = st"
| "concurrent_EnableAutoGC (First_call # sched) x1 x2 (pc1, pc2, manager, jobs) =
     (let (pc1', manager', jobs') = EnableAutoGC_stmt x1 pc1 (manager, jobs)
      in concurrent_EnableAutoGC sched x1 x2 (pc1', pc2, manager', jobs'))"
| "concurrent_EnableAutoGC (Second_call # sched) x1 x2 (pc1, pc2, manager, jobs) =
     (let (pc2', manager', jobs') = EnableAutoGC_stmt x2 pc2 (manager, jobs)
      in concurrent_EnableAutoGC sched x1 x2 (pc1, pc2', manager', jobs'))"

section \<open>Validation\<close>

lemma validateName_invalid_iff:
  "(validateName name = Some ErrInvalidName) = (length name = 0 \<or> 100 < length name)"
  by (simp add: validateName_def Let_def)

lemma validateName_valid_iff:
  "(validateName name = None) = (1 \<le> length name \<and> length name \<le> 100)"
  by (cases name) (auto simp add: validateName_def Let_def)






lemma name_absent_or_valid:
  assumes "pName payload = None \<or>
   (\<exists>name. pName payload = Some name \<and> 1 \<le> length name \<and> length name \<le> 100)"
  shows "(case pName payload of Some name \<Rightarrow> validateName name | None \<Rightarrow> None) = None"
proof (cases "pName payload")
  case None
  then show ?thesis by simp
next
  case (Some n)
  with assms have "1 \<le> length n \<and> length n \<le> 100" by simp
  then have "validateName n = None" by (simp only: validateName_valid_iff)
  with Some show ?thesis by simp
qed

lemma Update_invalid_name:
  assumes "pName payload = Some name" and "length name = 0 \<or> 100 < length name"
  shows "Update ur payload s = (Some ErrInvalidName, s)"
proof -
  from assms(2) have "validateName name = Some ErrInvalidName"
    by (simp only: validateName_invalid_iff)
  with assms(1) show ?thesis by (simp add: Update_def)
qed

lemma Update_invalid_password:
  assumes "pName payload = None \<or>
   (\<exists>name. pName payload = Some name \<and> 1 \<le> length name \<and> length name \<le> 100)"
    and "pPassword payload = Some bs" and "length bs < 6"
  shows "Update ur payload s = (Some ErrInvalidPassword, s)"
proof -
  have "validatePassword (Some bs) = Some ErrInvalidPassword"
    using assms(3) by (simp add: validatePassword_def)
  with name_absent_or_valid [OF assms(1)] assms(2) show ?thesis
    by (simp add: Update_def)
qed

lemma Update_valid:
  assumes "pName payload = None \<or>
   (\<exists>name. pName payload = Some name \<and> 1 \<le> length name \<and> length name \<le> 100)"
    and "pPassword payload = None \<or> (\<exists>bs. pPassword payload = Some bs \<and> 6 \<le> length bs)"
  shows "Update ur payload s = UpdateUser (Storage ur) s payload"
proof -
  have "(case pPassword payload of Some bs \<Rightarrow> validatePassword (pPassword payload) | None \<Rightarrow> None) = None"
  proof (cases "pPassword payload")
    case None
    then show ?thesis by simp
  next
    case (Some bs)
    with assms(2) have "6 \<le> length bs" by simp
    with Some show ?thesis by (simp add: validatePassword_def)
  qed
  with name_absent_or_valid [OF assms(1)] show ?thesis
    by (simp add: Update_def)
qed



section \<open>Authorization\<close>

lemma checkIfRequesterIsAdmin_admin:
  "GetUser storage s requesterID = (requester, None) \<Longrightarrow> IsAdmin requester \<Longrightarrow>
   checkIfRequesterIsAdmin storage requesterID s = None"
  by (simp add: checkIfRequesterIsAdmin_def)

lemma checkIfRequesterIsAdmin_denied:
  assumes "GetUser storage s requesterID = (requester, err)"
    and "(err = None \<and> \<not> IsAdmin requester) \<or> (\<exists>e. err = Some e \<and> is_NotFound e)"
  shows "checkIfRequesterIsAdmin storage requesterID s = Some Forbidden"
  using assms by (auto simp add: checkIfRequesterIsAdmin_def)

lemma memStorage_fields:
  "GetUser (Storage memRepository) s uid = lookup (\<lambda>u. ID u = uid) s"
  "GetUserByName (Storage memRepository) s name = lookup (\<lambda>u. Name u = name) s"
  "SaveUser (Storage memRepository) s u = (None, s @ [u])"
  by (simp_all add: memRepository_def memStorage_def)

text \<open>
  C7. Let \<open>u1\<close> and \<open>u2\<close> be different ids, and let the requester \<open>u1\<close> be no admin:
  the storage finds it with \<open>IsAdmin\<close> false, or does not find it. Then
  \<^verbatim>\<open>DeleteByUser\<close> fails with \<open>Forbidden\<close> and the storage is left as it was, and this
  whatever the storage's \<^verbatim>\<open>DeleteUser\<close> would do: \<^verbatim>\<open>Delete\<close> is not called, and no
  account is removed.
\<close>

theorem DeleteByUser_non_admin_forbidden:
  assumes "u1 \<noteq> u2"
    and "GetUser (Storage ur) s u1 = (requester, err)"
    and "(err = None \<and> \<not> IsAdmin requester) \<or> (\<exists>e. err = Some e \<and> is_NotFound e)"
  shows "DeleteByUser ur u1 u2 s = (Some Forbidden, s) \<and>
         DeleteByUser (ur\<lparr>Storage := (Storage ur)\<lparr>DeleteUser := d\<rparr>\<rparr>) u1 u2 s = (Some Forbidden, s)"
proof -
  have 1: "checkIfRequesterIsAdmin (Storage ur) u1 s = Some Forbidden"
    using assms(2,3) by (rule checkIfRequesterIsAdmin_denied)
  have "GetUser ((Storage ur)\<lparr>DeleteUser := d\<rparr>) s u1 = (requester, err)"
    using assms(2) by simp
  then have 2: "checkIfRequesterIsAdmin ((Storage ur)\<lparr>DeleteUser := d\<rparr>) u1 s = Some Forbidden"
    using assms(3) by (rule checkIfRequesterIsAdmin_denied)
  from 1 2 assms(1) show ?thesis
    by (simp add: DeleteByUser_def)
qed

theorem DeleteByUser_non_admin_forbidden_witness:
  "''u1'' \<noteq> ''u2'' \<and>
   GetUser memStorage
     [\<lparr>ID = ''u1'', Name = ''bob'', Password = Some [1], IsAdmin = False\<rparr>,
      \<lparr>ID = ''u2'', Name = ''eve'', Password = Some [2], IsAdmin = False\<rparr>] ''u1''
     = (\<lparr>ID = ''u1'', Name = ''bob'', Password = Some [1], IsAdmin = False\<rparr>, None) \<and>
   DeleteByUser memRepository ''u1'' ''u2''
     [\<lparr>ID = ''u1'', Name = ''bob'', Password = Some [1], IsAdmin = False\<rparr>,
      \<lparr>ID = ''u2'', Name = ''eve'', Password = Some [2], IsAdmin = False\<rparr>]
     = (Some Forbidden,
        [\<lparr>ID = ''u1'', Name = ''bob'', Password = Some [1], IsAdmin = False\<rparr>,
         \<lparr>ID = ''u2'', Name = ''eve'', Password = Some [2], IsAdmin = False\<rparr>]) \<and>
   Delete memRepository ''u2''
     [\<lparr>ID = ''u1'', Name = ''bob'', Password = Some [1], IsAdmin = False\<rparr>,
      \<lparr>ID = ''u2'', Name = ''eve'', Password = Some [2], IsAdmin = False\<rparr>]
     = (None, [\<lparr>ID = ''u1'', Name = ''bob'', Password = Some [1], IsAdmin = False\<rparr>])"
proof -
  let ?s = "[\<lparr>ID = ''u1'', Name = ''bob'', Password = Some [1], IsAdmin = False\<rparr>,
      \<lparr>ID = ''u2'', Name = ''eve'', Password = Some [2::8 word], IsAdmin = False\<rparr>]"
  have ne: "''u1'' \<noteq> ''u2''" by simp
  have g: "GetUser (Storage memRepository) ?s ''u1''
      = (\<lparr>ID = ''u1'', Name = ''bob'', Password = Some [1], IsAdmin = False\<rparr>, None)"
    by (simp add: memStorage_fields lookup_def)
  have h: "(None = None \<and> \<not> IsAdmin \<lparr>ID = ''u1'', Name = ''bob'', Password = Some [1::8 word], IsAdmin = False\<rparr>)
      \<or> (\<exists>e. None = Some e \<and> is_NotFound e)" by simp
  have d: "Delete memRepository ''u2'' ?s
      = (None, [\<lparr>ID = ''u1'', Name = ''bob'', Password = Some [1], IsAdmin = False\<rparr>])"
    by (simp add: Delete_def memRepository_def memStorage_def)
  from DeleteByUser_non_admin_forbidden [OF ne g h] g d show ?thesis
    by (simp add: memRepository_def)
qed


text \<open>
  C4. As stated the claim fails: with \<open>requesterID\<close> equal to \<open>id\<close> the call is let
  through to \<^verbatim>\<open>Get\<close>, which fails with \<open>NotFoundError\<close> when there is no such account.
\<close>

theorem GetByUser_self_absent_counterexample:
  "GetByUser memRepository ''u1'' ''u1'' [] = (zero_User, Some NotFoundError)"
  by (simp add: GetByUser_def Get_def memStorage_fields lookup_def)

text \<open>
  C4, amended. \<^verbatim>\<open>GetByUser\<close> returns what \<^verbatim>\<open>Get\<close> returns for the id (the account
  when it exists, the storage's error otherwise) when \<open>requesterID\<close> equals the id,
  whether or not the requester is an admin, and when the requester is an admin. When
  \<open>requesterID\<close> differs from the id and the requester is no admin (the storage finds it
  with \<open>IsAdmin\<close> false, or does not find it) it fails with \<open>Forbidden\<close>. So for an
  account that exists and a requester, another account that exists, it succeeds if and
  only if the requester is an admin.
\<close>

theorem GetByUser_authorization:
  "GetByUser ur uid uid s = Get ur uid s \<and>
   (GetUser (Storage ur) s requesterID = (requester, None) \<and> IsAdmin requester \<longrightarrow>
      GetByUser ur requesterID uid s = Get ur uid s) \<and>
   (requesterID \<noteq> uid \<and> GetUser (Storage ur) s requesterID = (requester, err) \<and>
    ((err = None \<and> \<not> IsAdmin requester) \<or> (\<exists>e. err = Some e \<and> is_NotFound e)) \<longrightarrow>
      GetByUser ur requesterID uid s = (zero_User, Some Forbidden)) \<and>
   (requesterID \<noteq> uid \<and> GetUser (Storage ur) s requesterID = (requester, None) \<and>
    Get ur uid s = (u, None) \<longrightarrow>
      (GetByUser ur requesterID uid s = (u, None)) = IsAdmin requester)"
proof (intro conjI impI)
  show "GetByUser ur uid uid s = Get ur uid s"
    by (simp add: GetByUser_def)
next
  assume "GetUser (Storage ur) s requesterID = (requester, None) \<and> IsAdmin requester"
  then have "checkIfRequesterIsAdmin (Storage ur) requesterID s = None"
    by (simp add: checkIfRequesterIsAdmin_admin)
  then show "GetByUser ur requesterID uid s = Get ur uid s"
    by (simp add: GetByUser_def)
next
  assume a: "requesterID \<noteq> uid \<and> GetUser (Storage ur) s requesterID = (requester, err) \<and>
    ((err = None \<and> \<not> IsAdmin requester) \<or> (\<exists>e. err = Some e \<and> is_NotFound e))"
  then have "checkIfRequesterIsAdmin (Storage ur) requesterID s = Some Forbidden"
    using checkIfRequesterIsAdmin_denied [of "Storage ur" s requesterID requester err] by blast
  with a show "GetByUser ur requesterID uid s = (zero_User, Some Forbidden)"
    by (simp add: GetByUser_def)
next
  assume a: "requesterID \<noteq> uid \<and> GetUser (Storage ur) s requesterID = (requester, None) \<and>
    Get ur uid s = (u, None)"
  show "(GetByUser ur requesterID uid s = (u, None)) = IsAdmin requester"
  proof (cases "IsAdmin requester")
    case True
    with a have "checkIfRequesterIsAdmin (Storage ur) requesterID s = None"
      by (simp add: checkIfRequesterIsAdmin_admin)
    with a True show ?thesis by (simp add: GetByUser_def)
  next
    case False
    with a have "checkIfRequesterIsAdmin (Storage ur) requesterID s = Some Forbidden"
      by (simp add: checkIfRequesterIsAdmin_def)
    with a False show ?thesis by (simp add: GetByUser_def)
  qed
qed

theorem GetByUser_authorization_witness:
  "GetByUser memRepository ''u1'' ''u1''
     [\<lparr>ID = ''u1'', Name = ''bob'', Password = Some [1], IsAdmin = False\<rparr>,
      \<lparr>ID = ''u2'', Name = ''eve'', Password = Some [2], IsAdmin = True\<rparr>]
     = (\<lparr>ID = ''u1'', Name = ''bob'', Password = Some [1], IsAdmin = False\<rparr>, None) \<and>
   GetByUser memRepository ''u2'' ''u1''
     [\<lparr>ID = ''u1'', Name = ''bob'', Password = Some [1], IsAdmin = False\<rparr>,
      \<lparr>ID = ''u2'', Name = ''eve'', Password = Some [2], IsAdmin = True\<rparr>]
     = (\<lparr>ID = ''u1'', Name = ''bob'', Password = Some [1], IsAdmin = False\<rparr>, None) \<and>
   GetByUser memRepository ''u1'' ''u2''
     [\<lparr>ID = ''u1'', Name = ''bob'', Password = Some [1], IsAdmin = False\<rparr>,
      \<lparr>ID = ''u2'', Name = ''eve'', Password = Some [2], IsAdmin = True\<rparr>]
     = (zero_User, Some Forbidden) \<and>
   GetByUser memRepository ''u3'' ''u2''
     [\<lparr>ID = ''u1'', Name = ''bob'', Password = Some [1], IsAdmin = False\<rparr>,
      \<lparr>ID = ''u2'', Name = ''eve'', Password = Some [2], IsAdmin = True\<rparr>]
     = (zero_User, Some Forbidden)"
proof -
  let ?bob = "\<lparr>ID = ''u1'', Name = ''bob'', Password = Some [1::8 word], IsAdmin = False\<rparr>"
  let ?eve = "\<lparr>ID = ''u2'', Name = ''eve'', Password = Some [2::8 word], IsAdmin = True\<rparr>"
  let ?s = "[?bob, ?eve]"
  have g1: "GetUser (Storage memRepository) ?s ''u1'' = (?bob, None)"
    and g2: "GetUser (Storage memRepository) ?s ''u2'' = (?eve, None)"
    and g3: "GetUser (Storage memRepository) ?s ''u3'' = (zero_User, Some NotFoundError)"
    by (simp_all add: memStorage_fields lookup_def)
  have get1: "Get memRepository ''u1'' ?s = (?bob, None)"
    using g1 by (simp add: Get_def)
  note self = GetByUser_authorization [where ur = memRepository and uid = "''u1''" and s = ?s
      and requesterID = "''u1''" and requester = ?bob and err = None and u = ?bob]
  note admin = GetByUser_authorization [where ur = memRepository and uid = "''u1''" and s = ?s
      and requesterID = "''u2''" and requester = ?eve and err = None and u = ?bob]
  note other = GetByUser_authorization [where ur = memRepository and uid = "''u2''" and s = ?s
      and requesterID = "''u1''" and requester = ?bob and err = None and u = ?eve]
  note unknown = GetByUser_authorization [where ur = memRepository and uid = "''u2''" and s = ?s
      and requesterID = "''u3''" and requester = zero_User and err = "Some NotFoundError" and u = ?eve]
  from self get1 have 1: "GetByUser memRepository ''u1'' ''u1'' ?s = (?bob, None)" by simp
  from admin g2 get1 have 2: "GetByUser memRepository ''u2'' ''u1'' ?s = (?bob, None)" by simp
  from other g1 have 3: "GetByUser memRepository ''u1'' ''u2'' ?s = (zero_User, Some Forbidden)" by simp
  from unknown g3 have 4: "GetByUser memRepository ''u3'' ''u2'' ?s = (zero_User, Some Forbidden)" by simp
  from 1 2 3 4 show ?thesis by blast
qed

text \<open>
  C3. As stated the claim fails: the fields of the patch are validated before the storage
  is asked, so a patch with an invalid name for an account that does not exist fails with
  \<open>ErrInvalidName\<close>, not with \<open>NotFoundError\<close>.
\<close>

theorem Update_nonexistent_invalid_name_counterexample:
  "UpdateUser memStorage []
     \<lparr>pID = ''ghost'', pName = Some [], pPassword = None, pIsAdmin = None\<rparr>
     = (Some NotFoundError, []) \<and>
   Update memRepository
     \<lparr>pID = ''ghost'', pName = Some [], pPassword = None, pIsAdmin = None\<rparr> []
     = (Some ErrInvalidName, []) \<and>
   Update memRepository
     \<lparr>pID = ''ghost'', pName = Some [], pPassword = None, pIsAdmin = None\<rparr> []
     \<noteq> (Some NotFoundError, [])"
  by (simp add: Update_def memStorage_def validateName_def)

text \<open>
  C3, amended. \<^verbatim>\<open>Update\<close> fails with \<open>ErrInvalidName\<close> when the patch has a name of
  length 0 or more than 100; else with \<open>ErrInvalidPassword\<close> when it has a secret shorter
  than 6; in both cases the storage is not asked, whether or not the account exists.
  Else it returns what the storage's \<^verbatim>\<open>UpdateUser\<close> returns: its \<open>NotFoundError\<close> for an
  account that does not exist, or its failure.
\<close>

theorem Update_validates_before_storage:
  "(pName payload = Some name \<and> (length name = 0 \<or> 100 < length name) \<longrightarrow>
      Update ur payload s = (Some ErrInvalidName, s)) \<and>
   ((pName payload = None \<or>
     (\<exists>n. pName payload = Some n \<and> 1 \<le> length n \<and> length n \<le> 100)) \<and>
    pPassword payload = Some bs \<and> length bs < 6 \<longrightarrow>
      Update ur payload s = (Some ErrInvalidPassword, s)) \<and>
   ((pName payload = None \<or>
     (\<exists>n. pName payload = Some n \<and> 1 \<le> length n \<and> length n \<le> 100)) \<and>
    (pPassword payload = None \<or> (\<exists>b. pPassword payload = Some b \<and> 6 \<le> length b)) \<longrightarrow>
      Update ur payload s = UpdateUser (Storage ur) s payload)"
proof (intro conjI impI)
  assume "pName payload = Some name \<and> (length name = 0 \<or> 100 < length name)"
  then show "Update ur payload s = (Some ErrInvalidName, s)"
    using Update_invalid_name [of payload name ur s] by blast
next
  assume "(pName payload = None \<or>
     (\<exists>n. pName payload = Some n \<and> 1 \<le> length n \<and> length n \<le> 100)) \<and>
    pPassword payload = Some bs \<and> length bs < 6"
  then show "Update ur payload s = (Some ErrInvalidPassword, s)"
    using Update_invalid_password [of payload bs ur s] by blast
next
  assume "(pName payload = None \<or>
     (\<exists>n. pName payload = Some n \<and> 1 \<le> length n \<and> length n \<le> 100)) \<and>
    (pPassword payload = None \<or> (\<exists>b. pPassword payload = Some b \<and> 6 \<le> length b))"
  then show "Update ur payload s = UpdateUser (Storage ur) s payload"
    using Update_valid [of payload ur s] by blast
qed

theorem Update_validates_before_storage_witness:
  "Update memRepository
     \<lparr>pID = ''ghost'', pName = Some [], pPassword = Some [1, 2, 3], pIsAdmin = None\<rparr> []
     = (Some ErrInvalidName, []) \<and>
   Update memRepository
     \<lparr>pID = ''ghost'', pName = None, pPassword = Some [1, 2, 3], pIsAdmin = None\<rparr> []
     = (Some ErrInvalidPassword, []) \<and>
   Update memRepository
     \<lparr>pID = ''ghost'', pName = Some ''bob'', pPassword = None, pIsAdmin = None\<rparr> []
     = (Some NotFoundError, []) \<and>
   Update memRepository
     \<lparr>pID = ''u1'', pName = Some ''bob'', pPassword = None, pIsAdmin = None\<rparr>
     [\<lparr>ID = ''u1'', Name = ''rob'', Password = Some [1], IsAdmin = False\<rparr>]
     = (None, [\<lparr>ID = ''u1'', Name = ''bob'', Password = Some [1], IsAdmin = False\<rparr>])"
proof -
  have upd0: "UpdateUser (Storage memRepository) [] p = (Some NotFoundError, [])" for p
    by (simp add: memRepository_def memStorage_def)
  have upd1: "UpdateUser (Storage memRepository)
      [\<lparr>ID = ''u1'', Name = ''rob'', Password = Some [1], IsAdmin = False\<rparr>]
      \<lparr>pID = ''u1'', pName = Some ''bob'', pPassword = None, pIsAdmin = None\<rparr>
      = (None, [\<lparr>ID = ''u1'', Name = ''bob'', Password = Some [1], IsAdmin = False\<rparr>])"
    by (simp add: memRepository_def memStorage_def apply_patch_def)
  show ?thesis
    using
      Update_validates_before_storage [where ur = memRepository and s = "[]" and name = "[]"
        and bs = "[1, 2, 3]"
        and payload = "\<lparr>pID = ''ghost'', pName = Some [], pPassword = Some [1, 2, 3], pIsAdmin = None\<rparr>"]
      Update_validates_before_storage [where ur = memRepository and s = "[]" and name = "[]"
        and bs = "[1, 2, 3]"
        and payload = "\<lparr>pID = ''ghost'', pName = None, pPassword = Some [1, 2, 3], pIsAdmin = None\<rparr>"]
      Update_validates_before_storage [where ur = memRepository and s = "[]" and name = "[]"
        and bs = "[1, 2, 3]"
        and payload = "\<lparr>pID = ''ghost'', pName = Some ''bob'', pPassword = None, pIsAdmin = None\<rparr>"]
      Update_validates_before_storage [where ur = memRepository
        and s = "[\<lparr>ID = ''u1'', Name = ''rob'', Password = Some [1], IsAdmin = False\<rparr>]"
        and name = "[]" and bs = "[1, 2, 3]"
        and payload = "\<lparr>pID = ''u1'', pName = Some ''bob'', pPassword = None, pIsAdmin = None\<rparr>"]
    by (simp add: upd0 upd1)
qed

text \<open>
  C1. The claim asks that a requester who is no admin cannot set \<^verbatim>\<open>isAdmin\<close> through
  \<^verbatim>\<open>UpdateByUser\<close> on its own account, as the comment of \<^verbatim>\<open>UpdateByUser\<close> says too
  ("The isAdmin property can only be changed by other admins"). The code makes no check
  when \<open>requesterID\<close> equals the id of the patch: on the in-memory storage the account
  \<open>u1\<close>, no admin, makes itself admin, and the call returns no error.
\<close>

theorem UpdateByUser_self_service_sets_isAdmin:
  "GetUser memStorage
     [\<lparr>ID = ''u1'', Name = ''bob'', Password = Some [1, 2, 3], IsAdmin = False\<rparr>] ''u1''
     = (\<lparr>ID = ''u1'', Name = ''bob'', Password = Some [1, 2, 3], IsAdmin = False\<rparr>, None) \<and>
   UpdateByUser memRepository ''u1''
     \<lparr>pID = ''u1'', pName = None, pPassword = None, pIsAdmin = Some True\<rparr>
     [\<lparr>ID = ''u1'', Name = ''bob'', Password = Some [1, 2, 3], IsAdmin = False\<rparr>]
     = (None, [\<lparr>ID = ''u1'', Name = ''bob'', Password = Some [1, 2, 3], IsAdmin = True\<rparr>])"
  by (simp add: UpdateByUser_def Update_def memRepository_def memStorage_def lookup_def
      apply_patch_def)

text \<open>
  C2. The claim asks that \<^verbatim>\<open>CheckLoginCredentials\<close> returns false and no error for a
  name absent from the storage. The code hands \<^verbatim>\<open>errors.As\<close> a nil pointer as its
  target, so for the name \<open>bob\<close>, absent from the in-memory storage, and any secret, the
  call panics.
\<close>

theorem CheckLoginCredentials_absent_name_panics:
  "GetUserByName memStorage
     [\<lparr>ID = ''u1'', Name = ''alice'', Password = Some [1, 2, 3], IsAdmin = False\<rparr>] ''bob''
     = (zero_User, Some NotFoundError) \<and>
   CheckLoginCredentials lib memRepository ''bob'' secret
     [\<lparr>ID = ''u1'', Name = ''alice'', Password = Some [1, 2, 3], IsAdmin = False\<rparr>]
     = Panic ''errors: target must be a non-nil pointer''"
  by (simp add: CheckLoginCredentials_def memRepository_def memStorage_def lookup_def
      errors_As_def)

text \<open>
  C10. \<^verbatim>\<open>CheckLoginCredentials\<close> never returns \<open>true\<close> together with a non-nil error:
  whenever it returns an error its boolean result is false. (The proof does not look into
  \<^verbatim>\<open>errors.As\<close>: it holds whatever that call answers.)
\<close>

theorem CheckLoginCredentials_no_match_with_error:
  "CheckLoginCredentials lib ur name password s \<noteq> Return (True, Some e)"
  by (simp add: CheckLoginCredentials_def Let_def
      split: prod.splits option.splits outcome.splits bool.splits)


section \<open>Auto-GC\<close>

lemma flag_after_Enable: "autoGCShouldBeRunning (snd (do_call (Call_EnableAutoGC x) m))"
  by (simp add: EnableAutoGC_def)

lemma Enable_when_Running:
  "autoGCShouldBeRunning m \<Longrightarrow>
   fst (do_call (Call_EnableAutoGC x) m) = Some (errors_New ''The autoGC job is already running'')"
  by (simp add: EnableAutoGC_def)

lemma run_calls_Cons_fst:
  "fst (run_calls (c # cs) m) = fst (do_call c m) # fst (run_calls cs (snd (do_call c m)))"
  by (simp add: split_beta)

lemma second_Enable_fails:
  "Suc i < length cs \<Longrightarrow> cs ! i = Call_EnableAutoGC x \<Longrightarrow> cs ! Suc i = Call_EnableAutoGC y \<Longrightarrow>
   fst (run_calls cs m) ! Suc i = Some (errors_New ''The autoGC job is already running'')"
proof (induction cs arbitrary: i m)
  case Nil
  then show ?case by simp
next
  case (Cons c cs)
  show ?case
  proof (cases i)
    case 0
    with Cons.prems obtain cs' where cs: "cs = Call_EnableAutoGC y # cs'" and c: "c = Call_EnableAutoGC x"
      by (cases cs) auto
    have "autoGCShouldBeRunning (snd (do_call c m))"
      unfolding c by (rule flag_after_Enable)
    then show ?thesis
      unfolding 0 cs run_calls_Cons_fst by (simp add: Enable_when_Running del: do_call.simps)
  next
    case (Suc j)
    with Cons.prems have "Suc j < length cs" "cs ! j = Call_EnableAutoGC x" "cs ! Suc j = Call_EnableAutoGC y"
      by auto
    from Cons.IH [OF this] show ?thesis
      unfolding Suc run_calls_Cons_fst by simp
  qed
qed

lemma Disable_without_Enable:
  "\<not> autoGCShouldBeRunning m \<Longrightarrow> i < length cs \<Longrightarrow>
   take (Suc i) cs = replicate (Suc i) Call_DisableAutoGC \<Longrightarrow>
   fst (run_calls cs m) ! i = Some (errors_New ''The autoGC job was not running'')"
proof (induction cs arbitrary: i m)
  case Nil
  then show ?case by simp
next
  case (Cons c cs)
  from Cons.prems have c: "c = Call_DisableAutoGC" by simp
  have st: "snd (do_call c m) = m"
    and er: "fst (do_call c m) = Some (errors_New ''The autoGC job was not running'')"
    using Cons.prems(1) unfolding c by (simp_all add: DisableAutoGC_def)
  show ?case
  proof (cases i)
    case 0
    then show ?thesis unfolding run_calls_Cons_fst using er by simp
  next
    case (Suc j)
    with Cons.prems have "j < length cs" "take (Suc j) cs = replicate (Suc j) Call_DisableAutoGC"
      by auto
    from Cons.IH [OF Cons.prems(1) this] show ?thesis
      unfolding Suc run_calls_Cons_fst st by simp
  qed
qed

text \<open>
  C5. The flag \<^verbatim>\<open>autoGCShouldBeRunning\<close> is a machine of two states. \<^verbatim>\<open>EnableAutoGC\<close>
  on a stopped manager sets the flag, starts the job and returns nil; on a running one it
  fails with "The autoGC job is already running" and changes nothing. \<^verbatim>\<open>DisableAutoGC\<close>
  on a running manager clears the flag and returns nil; on a stopped one it fails with
  "The autoGC job was not running" and changes nothing. In every sequence of these calls,
  from every state, an \<^verbatim>\<open>EnableAutoGC\<close> that directly follows an \<^verbatim>\<open>EnableAutoGC\<close>
  fails with the first error; and on a new manager a \<^verbatim>\<open>DisableAutoGC\<close> that no
  \<^verbatim>\<open>EnableAutoGC\<close> precedes fails with the second.
\<close>

theorem AutoGC_state_machine:
  "(\<not> autoGCShouldBeRunning m \<longrightarrow>
      EnableAutoGC m x = (None, m\<lparr>autoGCShouldBeRunning := True\<rparr>, [autoGC_job x])) \<and>
   (autoGCShouldBeRunning m \<longrightarrow>
      EnableAutoGC m x = (Some (errors_New ''The autoGC job is already running''), m, [])) \<and>
   (autoGCShouldBeRunning m \<longrightarrow>
      DisableAutoGC m = (None, m\<lparr>autoGCShouldBeRunning := False\<rparr>)) \<and>
   (\<not> autoGCShouldBeRunning m \<longrightarrow>
      DisableAutoGC m = (Some (errors_New ''The autoGC job was not running''), m)) \<and>
   (Suc i < length cs \<and> cs ! i = Call_EnableAutoGC y \<and> cs ! Suc i = Call_EnableAutoGC z \<longrightarrow>
      fst (run_calls cs m) ! Suc i = Some (errors_New ''The autoGC job is already running'')) \<and>
   (i < length cs \<and> take (Suc i) cs = replicate (Suc i) Call_DisableAutoGC \<longrightarrow>
      fst (run_calls cs (NewSessionManager prov)) ! i
        = Some (errors_New ''The autoGC job was not running''))"
proof (intro conjI impI)
  assume "\<not> autoGCShouldBeRunning m"
  then show "EnableAutoGC m x = (None, m\<lparr>autoGCShouldBeRunning := True\<rparr>, [autoGC_job x])"
    by (simp add: EnableAutoGC_def)
next
  assume "autoGCShouldBeRunning m"
  then show "EnableAutoGC m x = (Some (errors_New ''The autoGC job is already running''), m, [])"
    by (simp add: EnableAutoGC_def)
next
  assume "autoGCShouldBeRunning m"
  then show "DisableAutoGC m = (None, m\<lparr>autoGCShouldBeRunning := False\<rparr>)"
    by (simp add: DisableAutoGC_def)
next
  assume "\<not> autoGCShouldBeRunning m"
  then show "DisableAutoGC m = (Some (errors_New ''The autoGC job was not running''), m)"
    by (simp add: DisableAutoGC_def)
next
  assume "Suc i < length cs \<and> cs ! i = Call_EnableAutoGC y \<and> cs ! Suc i = Call_EnableAutoGC z"
  then show "fst (run_calls cs m) ! Suc i = Some (errors_New ''The autoGC job is already running'')"
    using second_Enable_fails [of i cs y z m] by blast
next
  assume a: "i < length cs \<and> take (Suc i) cs = replicate (Suc i) Call_DisableAutoGC"
  have "\<not> autoGCShouldBeRunning (NewSessionManager prov)"
    by (simp add: NewSessionManager_def)
  with a show "fst (run_calls cs (NewSessionManager prov)) ! i
        = Some (errors_New ''The autoGC job was not running'')"
    using Disable_without_Enable [of "NewSessionManager prov" i cs] by blast
qed

theorem AutoGC_state_machine_witness:
  "fst (run_calls [Call_EnableAutoGC 5, Call_EnableAutoGC 7, Call_DisableAutoGC, Call_DisableAutoGC]
          (NewSessionManager \<lparr>Provider_GC = (\<lambda>p::nat. (None, p))\<rparr>)) ! 1
     = Some (errors_New ''The autoGC job is already running'') \<and>
   fst (run_calls [Call_DisableAutoGC, Call_DisableAutoGC, Call_EnableAutoGC 5]
          (NewSessionManager \<lparr>Provider_GC = (\<lambda>p::nat. (None, p))\<rparr>)) ! 1
     = Some (errors_New ''The autoGC job was not running'') \<and>
   fst (run_calls [Call_EnableAutoGC 5, Call_EnableAutoGC 7, Call_DisableAutoGC, Call_DisableAutoGC]
          (NewSessionManager \<lparr>Provider_GC = (\<lambda>p::nat. (None, p))\<rparr>))
     = [None, Some (errors_New ''The autoGC job is already running''), None,
        Some (errors_New ''The autoGC job was not running'')] \<and>
   EnableAutoGC (NewSessionManager \<lparr>Provider_GC = (\<lambda>p::nat. (None, p))\<rparr>) 5
     = (None, \<lparr>provider = \<lparr>Provider_GC = (\<lambda>p::nat. (None, p))\<rparr>, autoGCShouldBeRunning = True\<rparr>,
        [autoGC_job 5]) \<and>
   DisableAutoGC \<lparr>provider = \<lparr>Provider_GC = (\<lambda>p::nat. (None, p))\<rparr>, autoGCShouldBeRunning = True\<rparr>
     = (None, NewSessionManager \<lparr>Provider_GC = (\<lambda>p::nat. (None, p))\<rparr>)"
proof -
  let ?p = "\<lparr>Provider_GC = (\<lambda>p::nat. (None :: error option, p))\<rparr>"
  let ?m = "NewSessionManager ?p"
  let ?r = "\<lparr>provider = ?p, autoGCShouldBeRunning = True\<rparr>"
  note a = AutoGC_state_machine [where m = ?m and prov = ?p and i = 0 and x = 5 and y = 5 and z = 7
      and cs = "[Call_EnableAutoGC 5, Call_EnableAutoGC 7, Call_DisableAutoGC, Call_DisableAutoGC]"]
  note b = AutoGC_state_machine [where m = ?r and prov = ?p and i = 1 and x = 5 and y = 5 and z = 7
      and cs = "[Call_DisableAutoGC, Call_DisableAutoGC, Call_EnableAutoGC 5]"]
  have 1: "fst (run_calls [Call_EnableAutoGC 5, Call_EnableAutoGC 7, Call_DisableAutoGC, Call_DisableAutoGC] ?m) ! 1
     = Some (errors_New ''The autoGC job is already running'')"
    using a by simp
  have 2: "fst (run_calls [Call_DisableAutoGC, Call_DisableAutoGC, Call_EnableAutoGC 5] ?m) ! 1
     = Some (errors_New ''The autoGC job was not running'')"
    using b by simp
  have 3: "fst (run_calls [Call_EnableAutoGC 5, Call_EnableAutoGC 7, Call_DisableAutoGC, Call_DisableAutoGC] ?m)
     = [None, Some (errors_New ''The autoGC job is already running''), None,
        Some (errors_New ''The autoGC job was not running'')]"
    by (simp add: NewSessionManager_def EnableAutoGC_def DisableAutoGC_def)
  have 4: "EnableAutoGC ?m 5 = (None, ?r, [autoGC_job 5])"
    using a by (simp add: NewSessionManager_def)
  have 5: "DisableAutoGC ?r = (None, ?m)"
    using b by (simp add: NewSessionManager_def)
  from 1 2 3 4 5 show ?thesis by blast
qed

lemma autoGC_loop_True_prefix:
  "autoGC_loop manager x (replicate n True @ flags) p =
     (let (st, evs, p') = autoGC_loop manager x flags (((\<lambda>q. snd (GC manager q)) ^^ n) p)
      in (st, concat (replicate n [GC_called, Sleep x]) @ evs, p'))"
  by (induction n arbitrary: p) (simp_all add: split_beta funpow_Suc_right del: funpow.simps)

text \<open>
  C9. As long as the job reads the flag as set, each turn of its loop calls \<^verbatim>\<open>GC()\<close>
  and then sleeps the interval \<open>x\<close> before it reads the flag again: after \<open>n\<close> such
  readings it has done \<open>n\<close> times "GC, sleep \<open>x\<close>", in this order, and is still looping;
  it leaves the loop at the first reading of a cleared flag, and not before. The error
  of \<^verbatim>\<open>GC()\<close> has no part in this: what the job does and whether it goes on depend on
  the readings only, whatever \<^verbatim>\<open>GC()\<close> returns, and the job has no error to return.
\<close>

theorem autoGC_loop_swallows_GC_errors:
  "autoGC_loop manager x (replicate n True) p =
     (Looping, concat (replicate n [GC_called, Sleep x]), ((\<lambda>q. snd (GC manager q)) ^^ n) p) \<and>
   autoGC_loop manager x (replicate n True @ False # flags) p =
     (Exited, concat (replicate n [GC_called, Sleep x]), ((\<lambda>q. snd (GC manager q)) ^^ n) p)"
  using autoGC_loop_True_prefix [of manager x n "[]" p]
    autoGC_loop_True_prefix [of manager x n "False # flags" p]
  by simp

theorem autoGC_loop_swallows_GC_errors_witness:
  "fst (GC (NewSessionManager \<lparr>Provider_GC = (\<lambda>p::nat. (Some (StorageFault ''gc''), Suc p))\<rparr>) 0)
     = Some (StorageFault ''gc'') \<and>
   autoGC_loop (NewSessionManager \<lparr>Provider_GC = (\<lambda>p::nat. (Some (StorageFault ''gc''), Suc p))\<rparr>)
     5 [True, True, True] 0
     = (Looping, [GC_called, Sleep 5, GC_called, Sleep 5, GC_called, Sleep 5], 3) \<and>
   autoGC_loop (NewSessionManager \<lparr>Provider_GC = (\<lambda>p::nat. (Some (StorageFault ''gc''), Suc p))\<rparr>)
     5 [True, True, False, True] 0
     = (Exited, [GC_called, Sleep 5, GC_called, Sleep 5], 2)"
proof -
  let ?m = "NewSessionManager \<lparr>Provider_GC = (\<lambda>p::nat. (Some (StorageFault ''gc''), Suc p))\<rparr>"
  have gc: "GC ?m q = (Some (StorageFault ''gc''), Suc q)" for q
    by (simp add: GC_def NewSessionManager_def)
  have r3: "replicate 3 True = [True, True, True]" and r2: "replicate 2 True = [True, True]"
    by (simp_all add: numeral_2_eq_2 numeral_3_eq_3)
  have c3: "concat (replicate 3 [GC_called, Sleep 5]) = [GC_called, Sleep 5, GC_called, Sleep 5, GC_called, Sleep 5]"
    and c2: "concat (replicate 2 [GC_called, Sleep 5]) = [GC_called, Sleep 5, GC_called, Sleep 5]"
    by (simp_all add: numeral_2_eq_2 numeral_3_eq_3)
  have f3: "((\<lambda>q. snd (GC ?m q)) ^^ 3) 0 = 3" and f2: "((\<lambda>q. snd (GC ?m q)) ^^ 2) 0 = 2"
    by (simp_all add: gc numeral_2_eq_2 numeral_3_eq_3)
  from autoGC_loop_swallows_GC_errors [of ?m 5 3 0 "[]"]
  have 1: "autoGC_loop ?m 5 [True, True, True] 0
     = (Looping, [GC_called, Sleep 5, GC_called, Sleep 5, GC_called, Sleep 5], 3)"
    unfolding r3 c3 f3 by simp
  from autoGC_loop_swallows_GC_errors [of ?m 5 2 0 "[True]"]
  have 2: "autoGC_loop ?m 5 [True, True, False, True] 0
     = (Exited, [GC_called, Sleep 5, GC_called, Sleep 5], 2)"
    unfolding r2 c2 f2 by simp
  from gc [of 0] 1 2 show ?thesis by simp
qed

lemma EnableAutoGC_stmt_alone:
  "concurrent_EnableAutoGC [First_call, First_call, First_call] x1 x2 (At_test, pc2, manager, jobs) =
     (case EnableAutoGC manager x1 of
        (err, manager', started) \<Rightarrow> (Returned err, pc2, manager', jobs @ started))"
  by (simp add: EnableAutoGC_def)

lemma autoGC_loop_still_Looping:
  "fst (autoGC_loop manager x (replicate n True) p) = Looping"
  using autoGC_loop_True_prefix [of manager x n "[]" p] by simp

text \<open>
  C8. The claim asks that the test of the flag, its assignment and the start of the job
  are one atomic guarded step of \<^verbatim>\<open>EnableAutoGC\<close>, so that a manager never has more
  than one job running; the comment of \<^verbatim>\<open>EnableAutoGC\<close> says so too ("Only a job of
  autoGC can be running at the same time for each SessionManager instance"). The code
  runs them as separate statements with no lock. Statement by statement, a call that
  runs alone does what \<^verbatim>\<open>EnableAutoGC\<close> does, and of two calls that run one after the
  other on a new manager the second fails and one job is started. But when the two calls
  take turns, both find the flag clear, both return nil, and two jobs are started; the
  flag is left set, so both jobs, which read it as set, go on looping. The same happens
  with no overlap at all: enable, disable, enable returns nil three times and starts two
  jobs, and the first job, asleep during the disable, reads the flag as set again.
\<close>

theorem concurrent_EnableAutoGC_starts_two_jobs:
  "concurrent_EnableAutoGC [First_call, First_call, First_call] x1 x2 (At_test, pc2, manager, jobs) =
     (case EnableAutoGC manager x1 of
        (err, manager', started) \<Rightarrow> (Returned err, pc2, manager', jobs @ started)) \<and>
   concurrent_EnableAutoGC
       [First_call, First_call, First_call, Second_call, Second_call, Second_call] x1 x2
       (At_test, At_test, NewSessionManager prov, []) =
     (Returned None, Returned (Some (errors_New ''The autoGC job is already running'')),
      \<lparr>provider = prov, autoGCShouldBeRunning = True\<rparr>, [autoGC_job x1]) \<and>
   concurrent_EnableAutoGC
       [First_call, Second_call, First_call, Second_call, First_call, Second_call] x1 x2
       (At_test, At_test, NewSessionManager prov, []) =
     (Returned None, Returned None,
      \<lparr>provider = prov, autoGCShouldBeRunning = True\<rparr>, [autoGC_job x1, autoGC_job x2]) \<and>
   fst (autoGC_loop \<lparr>provider = prov, autoGCShouldBeRunning = True\<rparr> x1 (replicate n True) p)
     = Looping \<and>
   fst (autoGC_loop \<lparr>provider = prov, autoGCShouldBeRunning = True\<rparr> x2 (replicate n True) p)
     = Looping \<and>
   (case EnableAutoGC (NewSessionManager prov) x1 of (err1, manager1, started1) \<Rightarrow>
    case DisableAutoGC manager1 of (err2, manager2) \<Rightarrow>
    case EnableAutoGC manager2 x2 of (err3, manager3, started3) \<Rightarrow>
      (err1, err2, err3, started1 @ started3, autoGCShouldBeRunning manager3))
     = (None, None, None, [autoGC_job x1, autoGC_job x2], True)"
proof (intro conjI)
  show "concurrent_EnableAutoGC [First_call, First_call, First_call] x1 x2 (At_test, pc2, manager, jobs) =
     (case EnableAutoGC manager x1 of
        (err, manager', started) \<Rightarrow> (Returned err, pc2, manager', jobs @ started))"
    by (rule EnableAutoGC_stmt_alone)
  show "concurrent_EnableAutoGC
       [First_call, First_call, First_call, Second_call, Second_call, Second_call] x1 x2
       (At_test, At_test, NewSessionManager prov, []) =
     (Returned None, Returned (Some (errors_New ''The autoGC job is already running'')),
      \<lparr>provider = prov, autoGCShouldBeRunning = True\<rparr>, [autoGC_job x1])"
    by (simp add: NewSessionManager_def)
  show "concurrent_EnableAutoGC
       [First_call, Second_call, First_call, Second_call, First_call, Second_call] x1 x2
       (At_test, At_test, NewSessionManager prov, []) =
     (Returned None, Returned None,
      \<lparr>provider = prov, autoGCShouldBeRunning = True\<rparr>, [autoGC_job x1, autoGC_job x2])"
    by (simp add: NewSessionManager_def)
  show "fst (autoGC_loop \<lparr>provider = prov, autoGCShouldBeRunning = True\<rparr> x1 (replicate n True) p)
     = Looping"
    by (rule autoGC_loop_still_Looping)
  show "fst (autoGC_loop \<lparr>provider = prov, autoGCShouldBeRunning = True\<rparr> x2 (replicate n True) p)
     = Looping"
    by (rule autoGC_loop_still_Looping)
  show "(case EnableAutoGC (NewSessionManager prov) x1 of (err1, manager1, started1) \<Rightarrow>
    case DisableAutoGC manager1 of (err2, manager2) \<Rightarrow>
    case EnableAutoGC manager2 x2 of (err3, manager3, started3) \<Rightarrow>
      (err1, err2, err3, started1 @ started3, autoGCShouldBeRunning manager3))
     = (None, None, None, [autoGC_job x1, autoGC_job x2], True)"
    by (simp add: NewSessionManager_def EnableAutoGC_def DisableAutoGC_def)
qed

end
